theory Spec2Isabelle
  imports Main "HOL-Library.Word" "HOL-Library.Signed_Division" "HOL-Library.Monad_Syntax"
begin

section \<open>The contract LocationLockedVault\<close>

subsection \<open>Solidity value types\<close>

text \<open>
  \<open>address\<close> is a 160-bit value, \<open>bytes32\<close> and \<open>uint256\<close> are 256-bit values,
  \<open>int32\<close> and \<open>uint32\<close> are 32-bit values (an \<open>int32\<close> is read with \<open>sint\<close>, a
  \<open>uint32\<close> with \<open>uint\<close>). The ABI decoder rejects an argument outside its type, so
  the word types carry exactly the values a call can pass.

  The local variables of the arithmetic functions are \<open>int256\<close>. They are modelled as
  \<open>int\<close>, and every operation is checked as Solidity 0.8 checks it: a result outside
  \<open>[-2^255, 2^255)\<close> and a division by zero abort the call with a \<open>Panic\<close>, which is
  the value \<open>None\<close>. Division on \<open>int256\<close> truncates towards zero (\<open>sdiv\<close>).
\<close>

type_synonym address = "160 word"
type_synonym bytes32 = "256 word"
type_synonym int32 = "32 word"
type_synonym uint32 = "32 word"
type_synonym uint256 = "256 word"

definition in_int256 :: "int \<Rightarrow> bool" where
  "in_int256 v \<longleftrightarrow> - (2 ^ 255) \<le> v \<and> v < 2 ^ 255"

definition checked :: "int \<Rightarrow> int option" where
  "checked v = (if in_int256 v then Some v else None)"

definition add256 :: "int \<Rightarrow> int \<Rightarrow> int option" where
  "add256 a b = checked (a + b)"

definition sub256 :: "int \<Rightarrow> int \<Rightarrow> int option" where
  "sub256 a b = checked (a - b)"

definition mul256 :: "int \<Rightarrow> int \<Rightarrow> int option" where
  "mul256 a b = checked (a * b)"

definition div256 :: "int \<Rightarrow> int \<Rightarrow> int option" where
  "div256 a b = (if b = 0 then None else checked (a sdiv b))"

subsection \<open>Fixed-point arithmetic: \<open>cos\<close> and \<open>sqrt\<close>\<close>

text \<open>
  \<open>cos\<close>: \<^verbatim>\<open>x2 = (x * x) / 1000000; x4 = (x2 * x2) / 1000000;
  return 1000000 - (x2 / 2) + (x4 / 24);\<close>
\<close>

definition cos :: "int \<Rightarrow> int option" where
  "cos x = do {
     xx \<leftarrow> mul256 x x;
     x2 \<leftarrow> div256 xx 1000000;
     x2x2 \<leftarrow> mul256 x2 x2;
     x4 \<leftarrow> div256 x2x2 1000000;
     h \<leftarrow> div256 x2 2;
     a \<leftarrow> sub256 1000000 h;
     q \<leftarrow> div256 x4 24;
     add256 a q
   }"

text \<open>
  \<open>sqrt\<close>: the loop \<^verbatim>\<open>while (z < y) { y = z; z = (x / z + z) / 2; }\<close> is
  \<open>sqrt_loop x z y\<close>, which returns the final \<open>y\<close>.
\<close>

function sqrt_loop :: "int \<Rightarrow> int \<Rightarrow> int \<Rightarrow> int option" where
  "sqrt_loop x z y =
     (if z < y then do {
        q \<leftarrow> div256 x z;
        s \<leftarrow> add256 q z;
        z' \<leftarrow> div256 s 2;
        sqrt_loop x z' z
      } else Some y)"
  by pat_completeness auto
termination
proof (relation "measure (\<lambda>(x, z, y). if z < y then 1 + nat (y + 2 ^ 255) else 0)")
  show "wf (measure (\<lambda>(x :: int, z :: int, y :: int). if z < y then 1 + nat (y + 2 ^ 255) else 0))"
    by simp
next
  fix x z y q s z' :: int
  assume zy: "z < y" and z': "div256 s 2 = Some z'"
  from z' have "- (2 ^ 255) \<le> z'"
    by (simp add: div256_def checked_def in_int256_def split: if_splits)
  with zy show "((x, z', z), (x, z, y))
      \<in> measure (\<lambda>(x, z, y). if z < y then 1 + nat (y + 2 ^ 255) else 0)"
    by simp
qed

definition sqrt :: "int \<Rightarrow> int option" where
  "sqrt x =
     (if x < 0 then Some 0
      else if x = 0 then Some 0
      else do {
        x1 \<leftarrow> add256 x 1;
        z \<leftarrow> div256 x1 2;
        sqrt_loop x z x
      })"

subsection \<open>The distance of two coordinates\<close>

text \<open>
  \<open>toRadians v\<close> is the expression \<^verbatim>\<open>(int256(v) * 314159) / (180000000)\<close>, which
  \<open>calculateDistance\<close> applies to each of its four arguments; \<open>planarX lat1Rad dLon\<close> is
  \<^verbatim>\<open>dLon * cos(lat1Rad / 1000000) / 1000000\<close>.
\<close>

definition toRadians :: "int32 \<Rightarrow> int option" where
  "toRadians v = do { m \<leftarrow> mul256 (sint v) 314159; div256 m 180000000 }"

definition planarX :: "int \<Rightarrow> int \<Rightarrow> int option" where
  "planarX lat1Rad dLon = do {
     a \<leftarrow> div256 lat1Rad 1000000;
     c \<leftarrow> cos a;
     m \<leftarrow> mul256 dLon c;
     div256 m 1000000
   }"

definition calculateDistance :: "int32 \<Rightarrow> int32 \<Rightarrow> int32 \<Rightarrow> int32 \<Rightarrow> uint256 option" where
  "calculateDistance lat1 lon1 lat2 lon2 = do {
     let R = 6371000;
     lat1Rad \<leftarrow> toRadians lat1;
     lon1Rad \<leftarrow> toRadians lon1;
     lat2Rad \<leftarrow> toRadians lat2;
     lon2Rad \<leftarrow> toRadians lon2;
     dLat \<leftarrow> sub256 lat2Rad lat1Rad;
     dLon \<leftarrow> sub256 lon2Rad lon1Rad;
     x \<leftarrow> planarX lat1Rad dLon;
     let y = dLat;
     xx \<leftarrow> mul256 x x;
     yy \<leftarrow> mul256 y y;
     distanceSquared \<leftarrow> add256 xx yy;
     r \<leftarrow> sqrt distanceSquared;
     m \<leftarrow> mul256 r R;
     d \<leftarrow> div256 m 1000000;
     Some (word_of_int d)
   }"

subsection \<open>Storage, events and errors\<close>

text \<open>
  The struct \<open>FileRecord\<close>. A \<open>string\<close> is its bytes; \<open>bytes\<close> is a list of bytes.
\<close>

type_synonym bytes = "8 word list"

record FileRecord =
  uploader :: address
  ipfsCID :: string
  signature :: bytes
  timestamp :: uint256
  hasLocationLock :: bool
  latitude :: int32
  longitude :: int32
  radius :: uint32

text \<open>A storage slot that was never written reads as the record of zeros.\<close>

definition zeroRecord :: FileRecord where
  "zeroRecord = \<lparr>uploader = 0, ipfsCID = [], signature = [], timestamp = 0,
     hasLocationLock = False, latitude = 0, longitude = 0, radius = 0\<rparr>"

datatype event =
    FileUploaded bytes32 address string bytes uint256 bool int32 int32 uint32
  | AccessGranted bytes32 address
  | AccessRevoked bytes32 address

text \<open>
  The contract's state: the two mappings, and the log of emitted events (oldest first).
\<close>

record vault =
  fileRecords :: "bytes32 \<Rightarrow> FileRecord"
  accessControl :: "bytes32 \<Rightarrow> address \<Rightarrow> bool"
  events :: "event list"

definition init :: vault where
  "init = \<lparr>fileRecords = (\<lambda>_. zeroRecord), accessControl = (\<lambda>_ _. False), events = []\<rparr>"

text \<open>
  The ways a call aborts, named as the specification names them:
  \<^item> \<open>AlreadyExists\<close>: \<^verbatim>\<open>require(..., "File already uploaded")\<close>;
  \<^item> \<open>InvalidPointer\<close>: \<^verbatim>\<open>require(..., "IPFS CID cannot be empty")\<close>;
  \<^item> \<open>NotFound\<close>: \<^verbatim>\<open>require(..., "File not found")\<close>;
  \<^item> \<open>Unauthorized\<close>: \<^verbatim>\<open>require(..., "Only uploader can grant access")\<close> and
    \<^verbatim>\<open>require(..., "Only uploader can revoke access")\<close>;
  \<^item> \<open>InvalidGrantee\<close>: \<^verbatim>\<open>require(..., "Invalid grantee address")\<close>;
  \<^item> \<open>SelfRevocation\<close>: \<^verbatim>\<open>require(..., "Cannot revoke own access")\<close>;
  \<^item> \<open>Panic\<close>: a checked arithmetic operation failed.
\<close>

datatype error =
  AlreadyExists | InvalidPointer | NotFound | Unauthorized | InvalidGrantee | SelfRevocation | Panic

subsection \<open>The functions that change the state\<close>

text \<open>
  Each takes \<open>msg.sender\<close> first (and \<open>uploadFile\<close> \<open>block.timestamp\<close> second), then its
  arguments and the state. It returns its outcome together with the state as the
  statements executed so far have left it: a \<open>require\<close> that fails stops the function
  where it stands. (The EVM then discards the writes of an aborted call; see
  \<open>transact\<close>.)
\<close>

definition uploadFile ::
  "address \<Rightarrow> uint256 \<Rightarrow> bytes32 \<Rightarrow> string \<Rightarrow> bytes \<Rightarrow> bool \<Rightarrow> int32 \<Rightarrow> int32 \<Rightarrow> uint32 \<Rightarrow> vault
    \<Rightarrow> (error + unit) \<times> vault" where
  "uploadFile sender now fileHash cid sg lock lat lon rad s =
     (if \<not> (uploader (fileRecords s fileHash) = 0) then (Inl AlreadyExists, s)
      else if \<not> (length cid > 0) then (Inl InvalidPointer, s)
      else
        let s1 = s\<lparr>fileRecords := (fileRecords s)(fileHash :=
                   \<lparr>uploader = sender, ipfsCID = cid, signature = sg, timestamp = now,
                    hasLocationLock = lock, latitude = lat, longitude = lon, radius = rad\<rparr>)\<rparr>;
            s2 = s1\<lparr>accessControl := (accessControl s1)(fileHash :=
                   (accessControl s1 fileHash)(sender := True))\<rparr>;
            s3 = s2\<lparr>events := events s2 @
                   [FileUploaded fileHash sender cid sg now lock lat lon rad]\<rparr>
        in (Inr (), s3))"

definition grantAccess :: "address \<Rightarrow> bytes32 \<Rightarrow> address \<Rightarrow> vault \<Rightarrow> (error + unit) \<times> vault" where
  "grantAccess sender fileHash grantee s =
     (if \<not> (uploader (fileRecords s fileHash) = sender) then (Inl Unauthorized, s)
      else if \<not> (grantee \<noteq> 0) then (Inl InvalidGrantee, s)
      else
        let s1 = s\<lparr>accessControl := (accessControl s)(fileHash :=
                   (accessControl s fileHash)(grantee := True))\<rparr>;
            s2 = s1\<lparr>events := events s1 @ [AccessGranted fileHash grantee]\<rparr>
        in (Inr (), s2))"

definition revokeAccess :: "address \<Rightarrow> bytes32 \<Rightarrow> address \<Rightarrow> vault \<Rightarrow> (error + unit) \<times> vault" where
  "revokeAccess sender fileHash grantee s =
     (if \<not> (uploader (fileRecords s fileHash) = sender) then (Inl Unauthorized, s)
      else if \<not> (grantee \<noteq> sender) then (Inl SelfRevocation, s)
      else
        let s1 = s\<lparr>accessControl := (accessControl s)(fileHash :=
                   (accessControl s fileHash)(grantee := False))\<rparr>;
            s2 = s1\<lparr>events := events s1 @ [AccessRevoked fileHash grantee]\<rparr>
        in (Inr (), s2))"

subsection \<open>The views\<close>

definition getFileRecord ::
  "vault \<Rightarrow> bytes32 \<Rightarrow> address \<times> string \<times> bytes \<times> uint256 \<times> bool \<times> int32 \<times> int32 \<times> uint32" where
  "getFileRecord s fileHash =
     (let record = fileRecords s fileHash
      in (uploader record, ipfsCID record, signature record, timestamp record,
          hasLocationLock record, latitude record, longitude record, radius record))"

definition verifyLocation :: "vault \<Rightarrow> bytes32 \<Rightarrow> int32 \<Rightarrow> int32 \<Rightarrow> error + bool" where
  "verifyLocation s fileHash currentLatitude currentLongitude =
     (let record = fileRecords s fileHash
      in if \<not> (uploader record \<noteq> 0) then Inl NotFound
         else if \<not> hasLocationLock record then Inr True
         else case calculateDistance (latitude record) (longitude record)
                     currentLatitude currentLongitude of
                None \<Rightarrow> Inl Panic
              | Some distance \<Rightarrow> Inr (distance \<le> ucast (radius record)))"

definition canAccess :: "vault \<Rightarrow> bytes32 \<Rightarrow> address \<Rightarrow> bool" where
  "canAccess s fileHash addr = accessControl s fileHash addr"

definition fileExists :: "vault \<Rightarrow> bytes32 \<Rightarrow> bool" where
  "fileExists s fileHash \<longleftrightarrow> uploader (fileRecords s fileHash) \<noteq> 0"

subsection \<open>Transactions and histories\<close>

text \<open>
  A transaction is one call of a state-changing function. When the call aborts, the
  EVM rolls the state back to what it was before the call. \<open>run\<close> applies a history of
  transactions in order.
\<close>

datatype call =
    UploadFile address uint256 bytes32 string bytes bool int32 int32 uint32
  | GrantAccess address bytes32 address
  | RevokeAccess address bytes32 address

fun invoke :: "call \<Rightarrow> vault \<Rightarrow> (error + unit) \<times> vault" where
  "invoke (UploadFile sender now h cid sg lock lat lon rad) s =
     uploadFile sender now h cid sg lock lat lon rad s"
| "invoke (GrantAccess sender h grantee) s = grantAccess sender h grantee s"
| "invoke (RevokeAccess sender h grantee) s = revokeAccess sender h grantee s"

definition transact :: "call \<Rightarrow> vault \<Rightarrow> vault" where
  "transact c s = (case invoke c s of (Inl e, _) \<Rightarrow> s | (Inr _, s') \<Rightarrow> s')"

fun run :: "call list \<Rightarrow> vault \<Rightarrow> vault" where
  "run [] s = s"
| "run (c # cs) s = run cs (transact c s)"

fun msg_sender :: "call \<Rightarrow> address" where
  "msg_sender (UploadFile sender _ _ _ _ _ _ _ _) = sender"
| "msg_sender (GrantAccess sender _ _) = sender"
| "msg_sender (RevokeAccess sender _ _) = sender"

text \<open>
  \<open>putSucceeded h cs s\<close>: in the history \<open>cs\<close>, started in \<open>s\<close>, some \<open>uploadFile\<close> of the
  hash \<open>h\<close> returned without aborting.
\<close>

fun isUploadOf :: "bytes32 \<Rightarrow> call \<Rightarrow> bool" where
  "isUploadOf h (UploadFile _ _ h' _ _ _ _ _ _) = (h' = h)"
| "isUploadOf h _ = False"

fun putSucceeded :: "bytes32 \<Rightarrow> call list \<Rightarrow> vault \<Rightarrow> bool" where
  "putSucceeded h [] s = False"
| "putSucceeded h (c # cs) s =
     ((isUploadOf h c \<and> fst (invoke c s) = Inr ()) \<or> putSucceeded h cs (transact c s))"

section \<open>Properties\<close>

lemmas arith_defs = mul256_def div256_def add256_def sub256_def checked_def in_int256_def
lemmas vault_defs = init_def zeroRecord_def uploadFile_def grantAccess_def revokeAccess_def
  transact_def fileExists_def canAccess_def getFileRecord_def
lemmas distance_defs = calculateDistance_def toRadians_def planarX_def cos_def sqrt_def

subsection \<open>Write-once records\<close>

text \<open>
  A successful \<open>uploadFile\<close> from a sender other than the zero address leaves a record
  that exists, holds the arguments of the call, and gives its uploader access.
\<close>

lemma uploadFile_creates:
  assumes "uploadFile sender now h cid sg lock lat lon rad s = (Inr (), s')" and "sender \<noteq> 0"
  shows "fileExists s' h"
    and "getFileRecord s' h = (sender, cid, sg, now, lock, lat, lon, rad)"
    and "canAccess s' h sender"
  using assms
  by (auto simp: uploadFile_def fileExists_def getFileRecord_def canAccess_def Let_def
      split: if_splits)

text \<open>
  C1. In a state where a record for \<open>h\<close> exists, \<open>uploadFile\<close> of \<open>h\<close>, by any sender and
  with any arguments, aborts with \<open>AlreadyExists\<close> and writes nothing: the state, and
  so the record \<open>getFileRecord\<close> returns for \<open>h\<close>, is the one before the call.
\<close>

theorem uploadFile_write_once:
  assumes "fileExists s h"
  shows "uploadFile sender now h cid sg lock lat lon rad s = (Inl AlreadyExists, s)
       \<and> getFileRecord (transact (UploadFile sender now h cid sg lock lat lon rad) s) h
           = getFileRecord s h"
  using assms by (simp add: uploadFile_def fileExists_def transact_def)

theorem uploadFile_write_once_witness:
  "fileExists (transact (UploadFile 1 1000 7 ''Qm'' [5] True 34052235 (- 118243683) 100) init) 7
   \<and> uploadFile 2 2000 7 ''Qx'' [] False 0 0 0
        (transact (UploadFile 1 1000 7 ''Qm'' [5] True 34052235 (- 118243683) 100) init)
      = (Inl AlreadyExists,
         transact (UploadFile 1 1000 7 ''Qm'' [5] True 34052235 (- 118243683) 100) init)
   \<and> getFileRecord (transact (UploadFile 2 2000 7 ''Qx'' [] False 0 0 0)
        (transact (UploadFile 1 1000 7 ''Qm'' [5] True 34052235 (- 118243683) 100) init)) 7
      = (1, ''Qm'', [5], 1000, True, 34052235, - 118243683, 100)"
proof -
  let ?s = "transact (UploadFile 1 1000 7 ''Qm'' [5] True 34052235 (- 118243683) 100) init"
  have ex: "fileExists ?s 7"
    by (simp add: vault_defs)
  have rec: "getFileRecord ?s 7 = (1, ''Qm'', [5], 1000, True, 34052235, - 118243683, 100)"
    by (simp add: vault_defs)
  from uploadFile_write_once [OF ex, of 2 2000 "''Qx''" "[]" False 0 0 0] ex rec
  show ?thesis by simp
qed

subsection \<open>Who may grant and revoke\<close>

lemma not_uploader_grant:
  "uploader (fileRecords s h) \<noteq> caller \<Longrightarrow> grantAccess caller h grantee s = (Inl Unauthorized, s)"
  by (simp add: grantAccess_def)

lemma not_uploader_revoke:
  "uploader (fileRecords s h) \<noteq> caller \<Longrightarrow> revokeAccess caller h grantee s = (Inl Unauthorized, s)"
  by (simp add: revokeAccess_def)

text \<open>
  C6. On an existing record, \<open>grantAccess\<close> and \<open>revokeAccess\<close> called by anyone but the
  record's uploader abort with \<open>Unauthorized\<close>, whatever the grantee, and write nothing.
\<close>

theorem grant_revoke_unauthorized:
  assumes "fileExists s h" and "caller \<noteq> uploader (fileRecords s h)"
  shows "grantAccess caller h grantee s = (Inl Unauthorized, s)
       \<and> revokeAccess caller h grantee s = (Inl Unauthorized, s)"
  using assms by (simp add: not_uploader_grant not_uploader_revoke)

theorem grant_revoke_unauthorized_witness:
  "fileExists (transact (UploadFile 1 1000 7 ''Qm'' [] False 0 0 0) init) 7
   \<and> (2 :: address) \<noteq> uploader (fileRecords (transact (UploadFile 1 1000 7 ''Qm'' [] False 0 0 0) init) 7)
   \<and> grantAccess 2 7 3 (transact (UploadFile 1 1000 7 ''Qm'' [] False 0 0 0) init)
       = (Inl Unauthorized, transact (UploadFile 1 1000 7 ''Qm'' [] False 0 0 0) init)
   \<and> revokeAccess 2 7 3 (transact (UploadFile 1 1000 7 ''Qm'' [] False 0 0 0) init)
       = (Inl Unauthorized, transact (UploadFile 1 1000 7 ''Qm'' [] False 0 0 0) init)"
proof -
  let ?s = "transact (UploadFile 1 1000 7 ''Qm'' [] False 0 0 0) init"
  have a: "fileExists ?s 7" by (simp add: vault_defs)
  have b: "(2 :: address) \<noteq> uploader (fileRecords ?s 7)" by (simp add: vault_defs)
  from grant_revoke_unauthorized [OF a b, of 3] a b show ?thesis by simp
qed

text \<open>
  C4, as the claim states it: on a hash without a record, \<open>grantAccess\<close> and
  \<open>revokeAccess\<close> would abort with \<open>NotFound\<close>. They do not: neither function has a
  "File not found" check, and the comparison of the stored uploader with the sender
  is what aborts the call.
\<close>

theorem grant_missing_record_not_NotFound:
  "\<not> fileExists init 7 \<and> fst (grantAccess 1 7 2 init) \<noteq> Inl NotFound
   \<and> fst (revokeAccess 1 7 2 init) \<noteq> Inl NotFound"
  by (simp add: vault_defs)

text \<open>
  C4, amended. On a hash without a record, \<open>grantAccess\<close> and \<open>revokeAccess\<close> called by
  any sender other than the zero address abort with \<open>Unauthorized\<close>, whatever the
  grantee, and write nothing.
\<close>

theorem grant_revoke_missing_record:
  assumes "\<not> fileExists s h" and "caller \<noteq> 0"
  shows "grantAccess caller h grantee s = (Inl Unauthorized, s)
       \<and> revokeAccess caller h grantee s = (Inl Unauthorized, s)"
  using assms by (simp add: fileExists_def not_uploader_grant not_uploader_revoke)

theorem grant_revoke_missing_record_witness:
  "\<not> fileExists init 7 \<and> (1 :: address) \<noteq> 0
   \<and> grantAccess 1 7 2 init = (Inl Unauthorized, init)
   \<and> revokeAccess 1 7 2 init = (Inl Unauthorized, init)"
proof -
  have a: "\<not> fileExists init 7" by (simp add: vault_defs)
  have b: "(1 :: address) \<noteq> 0" by simp
  from grant_revoke_missing_record [OF a b, of 2] a b show ?thesis by simp
qed

subsection \<open>The uploader's access\<close>

lemma transact_uploader_access:
  assumes "\<forall>h. fileExists s h \<longrightarrow> canAccess s h (uploader (fileRecords s h))"
  shows "\<forall>h. fileExists (transact c s) h
           \<longrightarrow> canAccess (transact c s) h (uploader (fileRecords (transact c s) h))"
proof (cases c)
  case (UploadFile sender now h' cid sg lock lat lon rad)
  with assms show ?thesis
    by (auto simp: transact_def uploadFile_def fileExists_def canAccess_def Let_def)
next
  case (GrantAccess sender h' grantee)
  with assms show ?thesis
    by (auto simp: transact_def grantAccess_def fileExists_def canAccess_def Let_def)
next
  case (RevokeAccess sender h' grantee)
  with assms show ?thesis
    by (auto simp: transact_def revokeAccess_def fileExists_def canAccess_def Let_def)
qed

lemma run_uploader_access:
  "\<forall>h. fileExists s h \<longrightarrow> canAccess s h (uploader (fileRecords s h))
   \<Longrightarrow> \<forall>h. fileExists (run cs s) h \<longrightarrow> canAccess (run cs s) h (uploader (fileRecords (run cs s) h))"
proof (induction cs arbitrary: s)
  case Nil
  then show ?case by simp
next
  case (Cons c cs)
  from Cons.IH [OF transact_uploader_access [OF Cons.prems, of c]] show ?case by simp
qed

lemma init_uploader_access:
  "\<forall>h. fileExists init h \<longrightarrow> canAccess init h (uploader (fileRecords init h))"
  by (simp add: init_def fileExists_def zeroRecord_def)

text \<open>
  C2. After any history of transactions from the initial state, every hash with a
  record has \<open>canAccess\<close> true for the record's uploader; and a \<open>revokeAccess\<close> of the
  uploader by the uploader aborts with \<open>SelfRevocation\<close>, writing nothing.
\<close>

theorem uploader_keeps_access:
  assumes "fileExists (run cs init) h"
  shows "canAccess (run cs init) h (uploader (fileRecords (run cs init) h))
       \<and> revokeAccess (uploader (fileRecords (run cs init) h)) h
            (uploader (fileRecords (run cs init) h)) (run cs init)
          = (Inl SelfRevocation, run cs init)"
proof
  from run_uploader_access [OF init_uploader_access, of cs] assms
  show "canAccess (run cs init) h (uploader (fileRecords (run cs init) h))" by blast
next
  show "revokeAccess (uploader (fileRecords (run cs init) h)) h
            (uploader (fileRecords (run cs init) h)) (run cs init)
          = (Inl SelfRevocation, run cs init)"
    by (simp add: revokeAccess_def)
qed

theorem uploader_keeps_access_witness:
  "fileExists (run [UploadFile 1 1000 7 ''Qm'' [] False 0 0 0, GrantAccess 1 7 2,
                    RevokeAccess 1 7 2, RevokeAccess 1 7 1, RevokeAccess 2 7 1] init) 7
   \<and> canAccess (run [UploadFile 1 1000 7 ''Qm'' [] False 0 0 0, GrantAccess 1 7 2,
                    RevokeAccess 1 7 2, RevokeAccess 1 7 1, RevokeAccess 2 7 1] init) 7 1
   \<and> fst (revokeAccess 1 7 1 (run [UploadFile 1 1000 7 ''Qm'' [] False 0 0 0, GrantAccess 1 7 2,
                    RevokeAccess 1 7 2, RevokeAccess 1 7 1, RevokeAccess 2 7 1] init))
       = Inl SelfRevocation"
proof -
  let ?cs = "[UploadFile 1 1000 7 ''Qm'' [] False 0 0 0, GrantAccess 1 7 2,
              RevokeAccess 1 7 2, RevokeAccess 1 7 1, RevokeAccess 2 7 1]"
  have a: "fileExists (run ?cs init) 7" by (simp add: vault_defs)
  have b: "uploader (fileRecords (run ?cs init) 7) = 1" by (simp add: vault_defs)
  from uploader_keeps_access [OF a] a b show ?thesis by simp
qed

subsection \<open>Hashes never written\<close>

lemma transact_unwritten:
  assumes "fileRecords s h = zeroRecord" and "\<forall>p. \<not> accessControl s h p"
    and "msg_sender c \<noteq> 0" and "\<not> (isUploadOf h c \<and> fst (invoke c s) = Inr ())"
  shows "fileRecords (transact c s) h = zeroRecord \<and> (\<forall>p. \<not> accessControl (transact c s) h p)"
proof (cases c)
  case (UploadFile sender now h' cid sg lock lat lon rad)
  with assms show ?thesis
    by (cases "h' = h") (auto simp: transact_def uploadFile_def Let_def split: if_splits)
next
  case (GrantAccess sender h' grantee)
  with assms show ?thesis
    by (cases "h' = h") (auto simp: transact_def grantAccess_def zeroRecord_def Let_def)
next
  case (RevokeAccess sender h' grantee)
  with assms show ?thesis
    by (cases "h' = h") (auto simp: transact_def revokeAccess_def zeroRecord_def Let_def)
qed

lemma run_unwritten:
  "fileRecords s h = zeroRecord \<Longrightarrow> \<forall>p. \<not> accessControl s h p
   \<Longrightarrow> \<forall>c \<in> set cs. msg_sender c \<noteq> 0 \<Longrightarrow> \<not> putSucceeded h cs s
   \<Longrightarrow> fileRecords (run cs s) h = zeroRecord \<and> (\<forall>p. \<not> accessControl (run cs s) h p)"
proof (induction cs arbitrary: s)
  case Nil
  then show ?case by simp
next
  case (Cons c cs)
  from Cons.prems have step:
    "fileRecords (transact c s) h = zeroRecord \<and> (\<forall>p. \<not> accessControl (transact c s) h p)"
    by (intro transact_unwritten) auto
  from Cons.prems have "\<forall>c \<in> set cs. msg_sender c \<noteq> 0" "\<not> putSucceeded h cs (transact c s)"
    by auto
  with step Cons.IH [of "transact c s"] show ?case by simp
qed

lemma transact_unwritten_record:
  assumes "fileRecords s h = zeroRecord"
    and "\<not> (isUploadOf h c \<and> fst (invoke c s) = Inr ())"
  shows "fileRecords (transact c s) h = zeroRecord"
proof (cases c)
  case (UploadFile sender now h' cid sg lock lat lon rad)
  with assms show ?thesis
    by (cases "h' = h") (auto simp: transact_def uploadFile_def Let_def split: if_splits)
next
  case (GrantAccess sender h' grantee)
  with assms show ?thesis by (simp add: transact_def grantAccess_def Let_def)
next
  case (RevokeAccess sender h' grantee)
  with assms show ?thesis by (simp add: transact_def revokeAccess_def Let_def)
qed

lemma run_unwritten_record:
  "fileRecords s h = zeroRecord \<Longrightarrow> \<not> putSucceeded h cs s
   \<Longrightarrow> fileRecords (run cs s) h = zeroRecord"
proof (induction cs arbitrary: s)
  case Nil
  then show ?case by simp
next
  case (Cons c cs)
  from Cons.prems have "fileRecords (transact c s) h = zeroRecord"
    by (intro transact_unwritten_record) auto
  moreover from Cons.prems have "\<not> putSucceeded h cs (transact c s)" by simp
  ultimately show ?case using Cons.IH [of "transact c s"] by simp
qed

text \<open>
  C7. After any history of transactions from the initial state in which no
  \<open>uploadFile\<close> of the hash \<open>h\<close> has succeeded: \<open>getFileRecord\<close> returns the record of
  zeros, without aborting; \<open>verifyLocation\<close> aborts with \<open>NotFound\<close> for every coordinate
  pair; and \<open>canAccess\<close> is false for every address, the senders of the history being
  other than the zero address (as the sender of a transaction is).
\<close>

theorem unwritten_hash_views:
  assumes "\<not> putSucceeded h cs init"
  shows "getFileRecord (run cs init) h = (0, [], [], 0, False, 0, 0, 0)
       \<and> \<not> fileExists (run cs init) h
       \<and> verifyLocation (run cs init) h lat lon = Inl NotFound
       \<and> ((\<forall>c \<in> set cs. msg_sender c \<noteq> 0) \<longrightarrow> (\<forall>p. \<not> canAccess (run cs init) h p))"
proof -
  have z: "fileRecords init h = zeroRecord" and n: "\<forall>p. \<not> accessControl init h p"
    by (simp_all add: init_def)
  from run_unwritten_record [OF z assms]
  have views: "getFileRecord (run cs init) h = (0, [], [], 0, False, 0, 0, 0)
       \<and> \<not> fileExists (run cs init) h
       \<and> verifyLocation (run cs init) h lat lon = Inl NotFound"
    by (simp add: getFileRecord_def fileExists_def verifyLocation_def zeroRecord_def)
  have "\<forall>p. \<not> canAccess (run cs init) h p" if "\<forall>c \<in> set cs. msg_sender c \<noteq> 0"
    using run_unwritten [OF z n that assms] by (simp add: canAccess_def)
  with views show ?thesis by blast
qed

theorem unwritten_hash_views_witness:
  "\<not> putSucceeded 8 [UploadFile 1 1000 7 ''Qm'' [] False 0 0 0, GrantAccess 1 7 2,
                UploadFile 3 1001 8 [] [] False 0 0 0, GrantAccess 3 8 4] init
   \<and> list_all (\<lambda>c. msg_sender c \<noteq> 0)
       [UploadFile 1 1000 7 ''Qm'' [] False 0 0 0, GrantAccess 1 7 2,
        UploadFile 3 1001 8 [] [] False 0 0 0, GrantAccess 3 8 4]
   \<and> getFileRecord (run [UploadFile 1 1000 7 ''Qm'' [] False 0 0 0, GrantAccess 1 7 2,
                UploadFile 3 1001 8 [] [] False 0 0 0, GrantAccess 3 8 4] init) 8
       = (0, [], [], 0, False, 0, 0, 0)
   \<and> \<not> canAccess (run [UploadFile 1 1000 7 ''Qm'' [] False 0 0 0, GrantAccess 1 7 2,
                UploadFile 3 1001 8 [] [] False 0 0 0, GrantAccess 3 8 4] init) 8 4
   \<and> verifyLocation (run [UploadFile 1 1000 7 ''Qm'' [] False 0 0 0, GrantAccess 1 7 2,
                UploadFile 3 1001 8 [] [] False 0 0 0, GrantAccess 3 8 4] init) 8 5 6
       = Inl NotFound"
proof -
  let ?cs = "[UploadFile 1 1000 7 ''Qm'' [] False 0 0 0, GrantAccess 1 7 2,
              UploadFile 3 1001 8 [] [] False 0 0 0, GrantAccess 3 8 4]"
  have a: "\<forall>c \<in> set ?cs. msg_sender c \<noteq> 0" by simp
  have a': "list_all (\<lambda>c. msg_sender c \<noteq> 0) ?cs" by simp
  have b: "\<not> putSucceeded 8 ?cs init" by (simp add: vault_defs)
  from unwritten_hash_views [OF b, of 5 6] a a' b show ?thesis by blast
qed

text \<open>
  The zero address as sender is what the last part excludes: it equals the uploader
  field of a record that was never written.
\<close>

lemma grantAccess_zero_sender:
  "\<not> fileExists (transact (GrantAccess 0 8 4) init) 8
   \<and> canAccess (transact (GrantAccess 0 8 4) init) 8 4"
  by (simp add: vault_defs)

subsection \<open>Verification without a lock\<close>

text \<open>
  C5. For an existing record without a location lock, \<open>verifyLocation\<close> returns true
  for every pair of \<open>int32\<close> coordinates, in or out of the range of valid coordinates.
\<close>

theorem verifyLocation_unlocked:
  assumes "fileExists s h" and "\<not> hasLocationLock (fileRecords s h)"
  shows "verifyLocation s h lat lon = Inr True"
  using assms by (simp add: verifyLocation_def fileExists_def)

theorem verifyLocation_unlocked_witness:
  "fileExists (transact (UploadFile 1 1000 7 ''Qm'' [] False 34052235 (- 118243683) 100) init) 7
   \<and> \<not> hasLocationLock (fileRecords
         (transact (UploadFile 1 1000 7 ''Qm'' [] False 34052235 (- 118243683) 100) init) 7)
   \<and> verifyLocation (transact (UploadFile 1 1000 7 ''Qm'' [] False 34052235 (- 118243683) 100) init)
        7 2147483647 (- 2147483648) = Inr True"
proof -
  let ?s = "transact (UploadFile 1 1000 7 ''Qm'' [] False 34052235 (- 118243683) 100) init"
  have a: "fileExists ?s 7" by (simp add: vault_defs)
  have b: "\<not> hasLocationLock (fileRecords ?s 7)" by (simp add: vault_defs)
  from verifyLocation_unlocked [OF a b, of 2147483647 "- 2147483648"] a b show ?thesis by simp
qed

subsection \<open>Aborted calls\<close>

text \<open>
  C9. When \<open>uploadFile\<close>, \<open>grantAccess\<close> or \<open>revokeAccess\<close> aborts, it has written
  nothing at the point where it stops: both mappings and the event log are as they
  were before the call.
\<close>

theorem failed_call_leaves_no_trace:
  "(fst (uploadFile sender now h cid sg lock lat lon rad s) = Inl e
      \<longrightarrow> snd (uploadFile sender now h cid sg lock lat lon rad s) = s)
   \<and> (fst (grantAccess sender h grantee s) = Inl e \<longrightarrow> snd (grantAccess sender h grantee s) = s)
   \<and> (fst (revokeAccess sender h grantee s) = Inl e \<longrightarrow> snd (revokeAccess sender h grantee s) = s)"
  by (simp add: uploadFile_def grantAccess_def revokeAccess_def Let_def)

theorem failed_call_leaves_no_trace_witness:
  "fst (uploadFile 2 2000 7 ''Qx'' [] False 0 0 0
         (transact (UploadFile 1 1000 7 ''Qm'' [] False 0 0 0) init)) = Inl AlreadyExists
   \<and> snd (uploadFile 2 2000 7 ''Qx'' [] False 0 0 0
         (transact (UploadFile 1 1000 7 ''Qm'' [] False 0 0 0) init))
       = transact (UploadFile 1 1000 7 ''Qm'' [] False 0 0 0) init
   \<and> fst (grantAccess 1 7 0 (transact (UploadFile 1 1000 7 ''Qm'' [] False 0 0 0) init))
       = Inl InvalidGrantee
   \<and> snd (grantAccess 1 7 0 (transact (UploadFile 1 1000 7 ''Qm'' [] False 0 0 0) init))
       = transact (UploadFile 1 1000 7 ''Qm'' [] False 0 0 0) init
   \<and> fst (revokeAccess 1 7 1 (transact (UploadFile 1 1000 7 ''Qm'' [] False 0 0 0) init))
       = Inl SelfRevocation
   \<and> snd (revokeAccess 1 7 1 (transact (UploadFile 1 1000 7 ''Qm'' [] False 0 0 0) init))
       = transact (UploadFile 1 1000 7 ''Qm'' [] False 0 0 0) init"
proof -
  let ?s = "transact (UploadFile 1 1000 7 ''Qm'' [] False 0 0 0) init"
  have a: "fst (uploadFile 2 2000 7 ''Qx'' [] False 0 0 0 ?s) = Inl AlreadyExists"
    by (simp add: vault_defs)
  have b: "fst (grantAccess 1 7 0 ?s) = Inl InvalidGrantee"
    by (simp add: vault_defs)
  have c: "fst (revokeAccess 1 7 1 ?s) = Inl SelfRevocation"
    by (simp add: vault_defs)
  from failed_call_leaves_no_trace [where s = ?s and e = AlreadyExists and sender = 2
      and now = 2000 and h = 7 and cid = "''Qx''" and sg = "[]" and lock = False and lat = 0
      and lon = 0 and rad = 0]
    failed_call_leaves_no_trace [where s = ?s and e = InvalidGrantee and sender = 1 and h = 7
      and grantee = 0]
    failed_call_leaves_no_trace [where s = ?s and e = SelfRevocation and sender = 1 and h = 7
      and grantee = 1]
    a b c
  show ?thesis by simp
qed

subsection \<open>The integer square root\<close>

text \<open>Truncating division of a non-negative number by a positive one is \<open>div\<close>.\<close>

lemma sdiv_nonneg: "0 \<le> a \<Longrightarrow> 0 < b \<Longrightarrow> (a :: int) sdiv b = a div b"
  by (simp add: signed_divide_int_def sgn_if)

lemma div_ge_one: "1 \<le> z \<Longrightarrow> z \<le> x \<Longrightarrow> 1 \<le> x div (z::int)"
  using zdiv_mono1 [of z x z] by simp

lemma le_div_of_mult_le: "0 < z \<Longrightarrow> m * z \<le> x \<Longrightarrow> m \<le> x div (z::int)"
  using zdiv_mono1 [of "m * z" x z] by simp

lemma mult_div_le_self: "0 < z \<Longrightarrow> z * (x div z) \<le> (x :: int)"
  using mult_div_mod_eq [of z x] pos_mod_sign [of z x] by linarith

lemma div_less_of_less_square:
  assumes "0 < z" "x < z * z" shows "x div (z::int) < z"
proof (rule ccontr)
  assume "\<not> x div z < z"
  then have "z \<le> x div z" by simp
  with assms(1) have "z * z \<le> z * (x div z)" by (simp add: mult_left_mono)
  with mult_div_le_self [OF assms(1), of x] assms(2) show False by linarith
qed

lemma square_mod_4: "(k :: int) * k mod 4 \<noteq> 3"
proof -
  have "(k mod 4) * (k mod 4) mod 4 = k * k mod 4"
    by (simp add: mod_mult_eq)
  moreover have "k mod 4 = 0 \<or> k mod 4 = 1 \<or> k mod 4 = 2 \<or> k mod 4 = 3" by presburger
  ultimately show ?thesis by auto
qed

lemma div_plus_le:
  fixes x z :: int
  assumes "1 \<le> z" "z \<le> x"
  shows "x div z + z \<le> x + 1"
proof -
  let ?q = "x div z"
  have q1: "1 \<le> ?q" using assms by (rule div_ge_one)
  have qz: "z * ?q \<le> x" using assms by (simp add: mult_div_le_self)
  have "0 \<le> (?q - 1) * (z - 1)" using q1 assms by simp
  then have "?q + z \<le> z * ?q + 1" by (simp add: algebra_simps)
  with qz show ?thesis by linarith
qed

lemma newton_lower:
  fixes x z r :: int
  assumes "0 < z" "r * r \<le> x"
  shows "r \<le> (x div z + z) div 2"
proof -
  have "0 \<le> (r - z) * (r - z)" by simp
  then have "(2 * r - z) * z \<le> r * r" by (simp add: algebra_simps)
  with assms have "(2 * r - z) * z \<le> x" by linarith
  with assms(1) have "2 * r - z \<le> x div z" by (rule le_div_of_mult_le)
  then show ?thesis by linarith
qed

lemma newton_decreases:
  fixes x z r :: int
  assumes "0 \<le> r" "x < (r + 1) * (r + 1)" "r < z"
  shows "(x div z + z) div 2 < z"
proof -
  from assms have "r + 1 \<le> z" "0 \<le> r + 1" by simp_all
  then have "(r + 1) * (r + 1) \<le> z * z" by (intro mult_mono) simp_all
  with assms have "x < z * z" "0 < z" by linarith+
  then have "x div z < z" by (intro div_less_of_less_square)
  then show ?thesis by linarith
qed

lemma div256_nonneg:
  assumes "0 \<le> a" "a < 2 ^ 255" "0 < b"
  shows "div256 a b = Some (a div b)"
proof -
  have "0 \<le> a div b" using assms by (simp add: pos_imp_zdiv_nonneg_iff)
  moreover have "a div b \<le> a" using zdiv_mono2 [of a 1 b] assms by simp
  ultimately have "in_int256 (a div b)" using assms(2) by (simp add: in_int256_def)
  with assms show ?thesis by (simp add: div256_def checked_def sdiv_nonneg)
qed

lemma add256_nonneg:
  assumes "0 \<le> a + b" "a + b < 2 ^ 255"
  shows "add256 a b = Some (a + b)"
proof -
  have "in_int256 (a + b)" using assms by (simp add: in_int256_def)
  then show ?thesis by (simp add: add256_def checked_def)
qed

text \<open>
  The loop keeps \<open>z\<close> and \<open>y\<close> at or above the root \<open>r\<close> of \<open>x\<close>, and \<open>z\<close> below \<open>y\<close> as
  long as \<open>y\<close> is above \<open>r\<close>; no checked operation leaves the \<open>int256\<close> range.
\<close>

lemma sqrt_loop_floor:
  assumes "1 \<le> r" "r * r \<le> x" "x < (r + 1) * (r + 1)" "x + 1 < 2 ^ 255"
    and "r \<le> z" "z \<le> x" "r \<le> y" "r < y \<longrightarrow> z < y"
  shows "sqrt_loop x z y = Some r"
  using assms
proof (induction x z y rule: sqrt_loop.induct)
  case (1 x z y)
  show ?case
  proof (cases "z < y")
    case False
    with "1.prems" have "y = r" by linarith
    with False show ?thesis by simp
  next
    case True
    let ?q = "x div z" and ?s = "x div z + z" and ?z' = "(x div z + z) div 2"
    from "1.prems" have z1: "1 \<le> z" and x0: "0 \<le> x" by linarith+
    have q0: "0 \<le> ?q" using z1 x0 by (simp add: pos_imp_zdiv_nonneg_iff)
    have sx: "?s \<le> x + 1" using z1 "1.prems" by (intro div_plus_le) simp_all
    have rz': "r \<le> ?z'" using z1 "1.prems" by (intro newton_lower) simp_all
    have z'x: "?z' \<le> x" using sx "1.prems" by linarith
    have dec: "r < z \<longrightarrow> ?z' < z" using "1.prems" by (auto intro!: newton_decreases [of r])
    have dq: "div256 x z = Some ?q"
      using z1 x0 "1.prems"(4) by (intro div256_nonneg) linarith+
    have ds: "add256 ?q z = Some ?s"
      using z1 q0 sx "1.prems"(4) by (intro add256_nonneg) linarith+
    have dz: "div256 ?s 2 = Some ?z'"
      using z1 q0 sx "1.prems"(4) by (intro div256_nonneg) linarith+
    have "sqrt_loop x ?z' z = Some r"
      using True dq ds dz "1.prems" rz' z'x dec by (intro "1.IH") simp_all
    with True dq ds dz show ?thesis by simp
  qed
qed

lemma sqrt_floor:
  assumes "1 \<le> r" "r * r \<le> x" "x < (r + 1) * (r + 1)" "x + 1 < 2 ^ 255"
  shows "sqrt x = Some r"
proof -
  have rr: "r \<le> r * r" using assms(1) by (simp add: mult_le_cancel_left1) 
  with assms have x1: "1 \<le> x" by linarith
  have "0 \<le> (r - 1) * (r - 1)" by simp
  then have "2 * r \<le> r * r + 1" by (simp add: algebra_simps)
  with assms have rz: "r \<le> (x + 1) div 2" by linarith
  have a: "add256 x 1 = Some (x + 1)"
    using x1 assms(4) by (intro add256_nonneg) linarith+
  have d: "div256 (x + 1) 2 = Some ((x + 1) div 2)"
    using x1 assms(4) by (intro div256_nonneg) linarith+
  have "sqrt_loop x ((x + 1) div 2) x = Some r"
    using assms rz rr x1 by (intro sqrt_loop_floor) (simp_all, linarith+)
  with a d x1 show ?thesis by (simp add: sqrt_def)
qed

text \<open>
  C8. \<open>sqrt\<close> returns 0 for 0 and for every negative argument, and returns exactly \<open>k\<close>
  for the square of every \<open>k \<ge> 0\<close> (a square that is an \<open>int256\<close>, as the argument of
  \<open>sqrt\<close> is).
\<close>

theorem sqrt_zero_negative_square:
  "sqrt 0 = Some 0
   \<and> (x < 0 \<longrightarrow> sqrt x = Some 0)
   \<and> (0 \<le> k \<and> in_int256 (k * k) \<longrightarrow> sqrt (k * k) = Some k)"
proof (intro conjI impI)
  show "sqrt 0 = Some 0" by (simp add: sqrt_def)
next
  assume "x < 0" then show "sqrt x = Some 0" by (simp add: sqrt_def)
next
  assume k: "0 \<le> k \<and> in_int256 (k * k)"
  show "sqrt (k * k) = Some k"
  proof (cases "k = 0")
    case True
    then show ?thesis by (simp add: sqrt_def)
  next
    case False
    with k have k1: "1 \<le> k" by simp
    have "k * k \<noteq> 2 ^ 255 - 1"
    proof
      assume "k * k = 2 ^ 255 - 1"
      then have "k * k mod 4 = (2 ^ 255 - 1) mod 4" by simp
      then have "k * k mod 4 = 3" by simp
      with square_mod_4 [of k] show False by simp
    qed
    with k have "k * k + 1 < 2 ^ 255" by (simp add: in_int256_def)
    moreover have "k * k < (k + 1) * (k + 1)" using k1 by (simp add: algebra_simps)
    ultimately show ?thesis using k1 by (intro sqrt_floor) simp_all
  qed
qed

theorem sqrt_zero_negative_square_witness:
  "sqrt 0 = Some 0 \<and> (-5 :: int) < 0 \<and> sqrt (-5) = Some 0
   \<and> (0 :: int) \<le> 12 \<and> in_int256 (12 * 12) \<and> sqrt (12 * 12) = Some 12"
proof -
  have a: "(-5 :: int) < 0" by simp
  have b: "(0 :: int) \<le> 12 \<and> in_int256 (12 * 12)" by (simp add: in_int256_def)
  from sqrt_zero_negative_square [of "-5" 12] a b show ?thesis by blast
qed

subsection \<open>The cosine term\<close>

lemma sdiv_pos_divisor:
  "0 < b \<Longrightarrow> (a :: int) sdiv b = (if 0 \<le> a then a div b else - ((- a) div b))"
  by (simp add: signed_divide_int_def sgn_if)

lemma cos_0: "cos 0 = Some 1000000"
  by (simp add: cos_def arith_defs)

lemma toRadians_valid_latitude:
  assumes "- 90000000 \<le> sint lat" "sint lat \<le> 90000000"
  shows "toRadians lat = Some ((sint lat * 314159) sdiv 180000000)"
    and "\<bar>(sint lat * 314159) sdiv 180000000\<bar> < 1000000"
proof -
  let ?m = "sint lat * 314159"
  have m: "- 28274310000000 \<le> ?m" "?m \<le> 28274310000000" using assms by simp_all
  then have "in_int256 ?m" by (simp add: in_int256_def)
  then have mul: "mul256 (sint lat) 314159 = Some ?m" by (simp add: mul256_def checked_def)
  have q: "?m sdiv 180000000 = (if 0 \<le> ?m then ?m div 180000000 else - ((- ?m) div 180000000))"
    by (rule sdiv_pos_divisor) simp
  with m show b: "\<bar>?m sdiv 180000000\<bar> < 1000000" by (simp split: if_splits)
  then have "in_int256 (?m sdiv 180000000)" by (simp add: in_int256_def abs_less_iff)
  with mul show "toRadians lat = Some (?m sdiv 180000000)"
    by (simp add: toRadians_def div256_def checked_def)
qed

lemma sdiv_small: "\<bar>r\<bar> < 1000000 \<Longrightarrow> (r :: int) sdiv 1000000 = 0"
  by (simp add: sdiv_pos_divisor)

lemma mult_sdiv_cancel: "(d * 1000000) sdiv 1000000 = (d :: int)"
  by (simp add: signed_divide_int_def abs_mult sgn_mult mult_sgn_abs)

text \<open>
  C10. For a lock latitude between -90,000,000 and 90,000,000 micro-degrees, the
  converted value \<open>lat1Rad\<close> is below 1,000,000 in absolute value, so the truncating
  division \<open>lat1Rad / 1000000\<close> is 0, \<open>cos\<close> returns exactly 1,000,000, and the planar
  offset \<open>x\<close> is \<open>dLon\<close> itself (for every \<open>dLon\<close> whose product with 1,000,000 is an
  \<open>int256\<close>): the quadratic and quartic terms of \<open>cos\<close> contribute nothing.
\<close>

theorem cosine_terms_never_contribute:
  assumes "- 90000000 \<le> sint lat" and "sint lat \<le> 90000000"
  shows "toRadians lat = Some ((sint lat * 314159) sdiv 180000000)
       \<and> \<bar>(sint lat * 314159) sdiv 180000000\<bar> < 1000000
       \<and> div256 ((sint lat * 314159) sdiv 180000000) 1000000 = Some 0
       \<and> cos 0 = Some 1000000
       \<and> (in_int256 (dLon * 1000000)
            \<longrightarrow> planarX ((sint lat * 314159) sdiv 180000000) dLon = Some dLon)"
proof -
  let ?r = "(sint lat * 314159) sdiv 180000000"
  note r = toRadians_valid_latitude [OF assms]
  have d: "div256 ?r 1000000 = Some 0"
    using r(2) by (simp add: div256_def checked_def in_int256_def sdiv_small)
  have x: "planarX ?r dLon = Some dLon" if "in_int256 (dLon * 1000000)"
  proof -
    from that have "in_int256 dLon" by (simp add: in_int256_def)
    with that d show ?thesis
      by (simp add: planarX_def cos_0 mul256_def div256_def checked_def mult_sdiv_cancel)
  qed
  from r d x show ?thesis by (simp add: cos_0)
qed

theorem cosine_terms_never_contribute_witness:
  "- 90000000 \<le> sint (34052235 :: int32) \<and> sint (34052235 :: int32) \<le> 90000000
   \<and> toRadians 34052235 = Some 59432
   \<and> div256 59432 1000000 = Some 0
   \<and> cos 0 = Some 1000000
   \<and> in_int256 (- 206373 * 1000000)
   \<and> planarX 59432 (- 206373) = Some (- 206373)"
proof -
  have a: "- 90000000 \<le> sint (34052235 :: int32)" by simp
  have b: "sint (34052235 :: int32) \<le> 90000000" by simp
  have c: "in_int256 (- 206373 * 1000000)" by (simp add: in_int256_def)
  have r: "(sint (34052235 :: int32) * 314159) sdiv 180000000 = 59432"
    by (simp add: signed_divide_int_def)
  from cosine_terms_never_contribute [OF a b, of "- 206373"] a b c r show ?thesis by simp
qed

text \<open>
  The same holds outside the valid range: for every \<open>int32\<close> latitude the argument of
  \<open>cos\<close> is between -3 and 3, its square divided by 1,000,000 is 0, and \<open>cos\<close> returns
  1,000,000.
\<close>

lemma sdiv_abs: "0 < b \<Longrightarrow> \<bar>(a :: int) sdiv b\<bar> = \<bar>a\<bar> div b"
  by (simp add: sdiv_pos_divisor pos_imp_zdiv_nonneg_iff)

lemma cos_small:
  assumes "\<bar>a\<bar> \<le> 3"
  shows "cos a = Some 1000000"
proof -
  from assms have "a = -3 \<or> a = -2 \<or> a = -1 \<or> a = 0 \<or> a = 1 \<or> a = 2 \<or> a = 3" by linarith
  then show ?thesis
    by (elim disjE) (simp_all add: cos_def arith_defs signed_divide_int_def)
qed

lemma toRadians_int32:
  fixes v :: int32
  shows "toRadians v = Some ((sint v * 314159) sdiv 180000000)"
    and "\<bar>(sint v * 314159) sdiv 180000000\<bar> \<le> 3748062"
proof -
  let ?m = "sint v * 314159"
  have "- 2147483648 \<le> sint v" "sint v < 2147483648"
    using sint_range_size [of v] by (simp_all add: word_size)
  then have m: "\<bar>?m\<bar> \<le> 674651315372032" by linarith
  then have "in_int256 ?m" by (simp add: in_int256_def abs_le_iff)
  then have mul: "mul256 (sint v) 314159 = Some ?m" by (simp add: mul256_def checked_def)
  have "\<bar>?m sdiv 180000000\<bar> = \<bar>?m\<bar> div 180000000" by (rule sdiv_abs) simp
  also have "\<dots> \<le> 674651315372032 div 180000000" using m by (intro zdiv_mono1) simp_all
  finally show b: "\<bar>?m sdiv 180000000\<bar> \<le> 3748062" by simp
  then have "in_int256 (?m sdiv 180000000)" by (simp add: in_int256_def abs_le_iff)
  with mul show "toRadians v = Some (?m sdiv 180000000)"
    by (simp add: toRadians_def div256_def checked_def)
qed

lemma cos_any_latitude:
  fixes lat :: int32
  shows "div256 ((sint lat * 314159) sdiv 180000000) 1000000
     = Some (((sint lat * 314159) sdiv 180000000) sdiv 1000000)"
    and "cos (((sint lat * 314159) sdiv 180000000) sdiv 1000000) = Some 1000000"
proof -
  let ?r = "(sint lat * 314159) sdiv 180000000"
  have "\<bar>?r sdiv 1000000\<bar> = \<bar>?r\<bar> div 1000000" by (rule sdiv_abs) simp
  also have "\<dots> \<le> 3748062 div 1000000"
    using toRadians_int32(2) [of lat] by (intro zdiv_mono1) simp_all
  finally have a: "\<bar>?r sdiv 1000000\<bar> \<le> 3" by simp
  then show "cos (?r sdiv 1000000) = Some 1000000" by (rule cos_small)
  from a have "in_int256 (?r sdiv 1000000)" by (simp add: in_int256_def abs_le_iff)
  then show "div256 ?r 1000000 = Some (?r sdiv 1000000)" by (simp add: div256_def checked_def)
qed

subsection \<open>The distance at the boundary example\<close>

text \<open>The comparison with the radius is \<open>\<le>\<close>: a distance equal to the radius verifies.\<close>

lemma verifyLocation_boundary:
  assumes "fileExists s h" and "hasLocationLock (fileRecords s h)"
    and "calculateDistance (latitude (fileRecords s h)) (longitude (fileRecords s h)) lat lon
           = Some d"
    and "d = ucast (radius (fileRecords s h))"
  shows "verifyLocation s h lat lon = Inr True"
  using assms by (simp add: verifyLocation_def fileExists_def)

text \<open>
  C3. The lock is (34.052235, -118.243683) with radius 100 m. For the query 0.0009
  degrees further north, about 100 m away, \<open>calculateDistance\<close> returns 6, not a value
  near 100: the multiplier \<open>314159 / 180000000\<close> is a tenth of the \<open>\<pi>/180\<close> its comment
  names, and one unit of the converted value counts as 6.371 m. A query 0.008 degrees
  further north, about 890 m away, has distance 89 and verifies against the radius 100.
  The comparison itself is \<open>\<le>\<close>: with radius 6 the first query verifies, with radius 5
  it does not.
\<close>

theorem distance_of_example:
  "calculateDistance 34052235 (- 118243683) 34053135 (- 118243683) = Some 6
   \<and> calculateDistance 34052235 (- 118243683) 34060235 (- 118243683) = Some 89
   \<and> verifyLocation
        (transact (UploadFile 1 1000 7 ''Qm'' [] True 34052235 (- 118243683) 100) init)
        7 34060235 (- 118243683) = Inr True
   \<and> verifyLocation
        (transact (UploadFile 1 1000 7 ''Qm'' [] True 34052235 (- 118243683) 6) init)
        7 34053135 (- 118243683) = Inr True
   \<and> verifyLocation
        (transact (UploadFile 1 1000 7 ''Qm'' [] True 34052235 (- 118243683) 5) init)
        7 34053135 (- 118243683) = Inr False"
proof -
  have d1: "calculateDistance 34052235 (- 118243683) 34053135 (- 118243683) = Some 6"
    by (simp add: distance_defs arith_defs signed_divide_int_def)
  have d2: "calculateDistance 34052235 (- 118243683) 34060235 (- 118243683) = Some 89"
    by (simp add: distance_defs arith_defs signed_divide_int_def)
  from d1 d2 show ?thesis
    by (simp add: vault_defs verifyLocation_def)
qed

end
